theory Spec2Isabelle
  imports Complex_Main
begin

section \<open>Register.js: the registration form\<close>

text \<open>
  JavaScript strings are modelled as \<^typ>\<open>string\<close>; every character the components
  use lies below code unit 256, so one \<^typ>\<open>char\<close> is one UTF-16 code unit
  (\<open>CHR 0xF6\<close> is o-umlaut, \<open>CHR 0xFC\<close> is u-umlaut).
\<close>

record formData =
  username :: string
  email :: string
  password :: string
  confirmPassword :: string

text \<open>The two \<open>useState\<close> cells of the component.\<close>

record register_state =
  reg_formData :: formData
  reg_error :: string

text \<open>The two calls of \<open>axios.post\<close> that \<open>handleSubmit\<close> can issue, with their bodies.\<close>

datatype request =
  PostRegister string string string
  | PostLogin string string

text \<open>
  The network is a parameter: a request is either rejected (\<open>Inl\<close>, carrying
  \<open>error.response?.data?.error\<close> when the server sent one) or answered (\<open>Inr\<close>,
  carrying \<open>response.data.user\<close>).
\<close>

type_synonym 'u network = "request \<Rightarrow> string option + 'u"

text \<open>Everything \<open>handleSubmit\<close> does that is visible outside it.\<close>

record 'u submit_outcome =
  default_prevented :: bool
  new_state :: register_state
  requests :: "request list"
  user_set :: "'u option"
  navigated :: "string option"

definition password_mismatch_msg :: string where
  "password_mismatch_msg =
     ''Die Passw'' @ [CHR 0xF6] @ ''rter stimmen nicht '' @ [CHR 0xFC] @ ''berein''"

definition registration_failed_msg :: string where
  "registration_failed_msg = ''Registrierung fehlgeschlagen''"

text \<open>\<open>error.response?.data?.error || 'Registrierung fehlgeschlagen'\<close>: the empty string is falsy.\<close>

definition catch_message :: "string option \<Rightarrow> string" where
  "catch_message e =
     (case e of
        None \<Rightarrow> registration_failed_msg
      | Some m \<Rightarrow> if m = [] then registration_failed_msg else m)"

definition handleSubmit :: "'u network \<Rightarrow> register_state \<Rightarrow> 'u submit_outcome" where
  "handleSubmit net s =
     (let fd = reg_formData s in
      if password fd \<noteq> confirmPassword fd then
        \<lparr>default_prevented = True,
         new_state = s\<lparr>reg_error := password_mismatch_msg\<rparr>,
         requests = [], user_set = None, navigated = None\<rparr>
      else
        let reg = PostRegister (username fd) (email fd) (password fd);
            login = PostLogin (username fd) (password fd)
        in case net reg of
             Inl e \<Rightarrow>
               \<lparr>default_prevented = True,
                new_state = s\<lparr>reg_error := catch_message e\<rparr>,
                requests = [reg], user_set = None, navigated = None\<rparr>
           | Inr _ \<Rightarrow>
               (case net login of
                  Inl e \<Rightarrow>
                    \<lparr>default_prevented = True,
                     new_state = s\<lparr>reg_error := catch_message e\<rparr>,
                     requests = [reg, login], user_set = None, navigated = None\<rparr>
                | Inr u \<Rightarrow>
                    \<lparr>default_prevented = True,
                     new_state = s,
                     requests = [reg, login], user_set = Some u, navigated = Some ''/''\<rparr>))"

section \<open>RecipeUpload: state and event handlers\<close>

text \<open>The fields of a browser \<open>File\<close> that the component reads.\<close>

record js_file =
  file_name :: string
  file_type :: string
  file_size :: nat

text \<open>
  The value \<open>uploadFile\<close> resolves to: \<open>{success: true, filename, data}\<close> or
  \<open>{success: false, filename, error}\<close>.
\<close>

datatype 'd upload_result =
  UploadOk (filename: string) 'd
  | UploadErr (filename: string) string

fun success :: "'d upload_result \<Rightarrow> bool" where
  "success (UploadOk _ _) = True"
| "success (UploadErr _ _) = False"

text \<open>The five \<open>useState\<close> cells; \<open>error\<close> is \<open>null\<close> or a message.\<close>

record 'd upload_state =
  files :: "js_file list"
  uploading :: bool
  uploadProgress :: "nat \<rightharpoonup> nat"
  uploadResults :: "'d upload_result list"
  error :: "string option"

definition only_pdf_msg :: string where
  "only_pdf_msg =
     ''Nur PDF-Dateien werden unterst'' @ [CHR 0xFC] @
     ''tzt. Nicht-PDF-Dateien wurden ignoriert.''"

definition no_files_msg :: string where
  "no_files_msg = ''Bitte f'' @ [CHR 0xFC] @ ''ge zuerst PDF-Dateien hinzu.''"

definition upload_failed_msg :: string where
  "upload_failed_msg = ''Upload fehlgeschlagen''"

text \<open>
  \<open>handleFileChange\<close>, applied to \<open>e.target.files\<close>. The three state setters run in
  the order of the source, so a later \<open>setError\<close> overrides an earlier one.
\<close>

definition handleFileChange :: "js_file list \<Rightarrow> 'd upload_state \<Rightarrow> 'd upload_state" where
  "handleFileChange target_files s =
     (let selectedFiles = filter (\<lambda>f. file_type f = ''application/pdf'') target_files;
          s1 = (if length selectedFiles \<noteq> length target_files
                then s\<lparr>error := Some only_pdf_msg\<rparr> else s);
          s2 = (if length selectedFiles > 0
                then s1\<lparr>files := files s1 @ selectedFiles, error := None\<rparr> else s1)
      in s2)"

text \<open>\<open>{error && <div className="error-message">{error}</div>}\<close>: \<open>null\<close> and \<open>''\<close> are falsy.\<close>

definition error_notice_shown :: "'d upload_state \<Rightarrow> bool" where
  "error_notice_shown s = (case error s of None \<Rightarrow> False | Some m \<Rightarrow> m \<noteq> [])"

text \<open>\<open>removeFile\<close>: drop the file at position \<open>index\<close>.\<close>

definition removeFile :: "nat \<Rightarrow> 'd upload_state \<Rightarrow> 'd upload_state" where
  "removeFile index s =
     s\<lparr>files := map snd (filter (\<lambda>(i, _). i \<noteq> index) (enumerate 0 (files s)))\<rparr>"

text \<open>
  What one call of \<open>axios.post\<close> to \<open>/recipes/upload\<close> does, seen from the component:
  the values \<open>percentCompleted\<close> that \<open>onUploadProgress\<close> computed (the rounding is
  floating point and stays outside the model), then a rejection (\<open>Inl\<close>, with
  \<open>err.response?.data?.error\<close> when there is one) or a response (\<open>Inr\<close>, its \<open>data\<close>).
  The network is a parameter, indexed by the position of the call and the file sent.
\<close>

record 'd post_outcome =
  progress_events :: "nat list"
  reply :: "string option + 'd"

type_synonym 'd upload_network = "nat \<Rightarrow> js_file \<Rightarrow> 'd post_outcome"

definition upload_error_text :: "string option \<Rightarrow> string" where
  "upload_error_text e =
     (case e of
        None \<Rightarrow> upload_failed_msg
      | Some m \<Rightarrow> if m = [] then upload_failed_msg else m)"

text \<open>
  \<open>uploadFile\<close>: every progress event stores its percentage under \<open>index\<close>; a rejection
  is caught and turned into a result with \<open>success = false\<close>, so the function never throws.
\<close>

definition uploadFile ::
  "'d upload_network \<Rightarrow> js_file \<Rightarrow> nat \<Rightarrow> 'd upload_state \<Rightarrow> 'd upload_result \<times> 'd upload_state" where
  "uploadFile post f index s =
     (let out = post index f;
          s' = fold (\<lambda>percentCompleted st.
                  st\<lparr>uploadProgress := (uploadProgress st)(index \<mapsto> percentCompleted)\<rparr>)
                (progress_events out) s
      in case reply out of
           Inr d \<Rightarrow> (UploadOk (file_name f) d, s')
         | Inl e \<Rightarrow> (UploadErr (file_name f) (upload_error_text e), s'))"

text \<open>The \<open>for\<close> loop of \<open>handleUploadAll\<close>, with its counter and the array \<open>results\<close>.\<close>

function upload_loop ::
  "'d upload_network \<Rightarrow> js_file list \<Rightarrow> nat \<Rightarrow> 'd upload_result list \<Rightarrow> 'd upload_state
     \<Rightarrow> 'd upload_result list \<times> 'd upload_state" where
  "upload_loop post fs i results s =
     (if i < length fs then
        (case uploadFile post (fs ! i) i s of
           (result, s') \<Rightarrow> upload_loop post fs (Suc i) (results @ [result]) s')
      else (results, s))"
  by pat_completeness auto
termination
  by (relation "measure (\<lambda>(post, fs, i, results, s). length fs - i)") auto

definition handleUploadAll :: "'d upload_network \<Rightarrow> 'd upload_state \<Rightarrow> 'd upload_state" where
  "handleUploadAll post s =
     (if length (files s) = 0 then s\<lparr>error := Some no_files_msg\<rparr>
      else
        let s1 = s\<lparr>uploading := True, error := None, uploadResults := [],
                   uploadProgress := Map.empty\<rparr>
        in case upload_loop post (files s) 0 [] s1 of
             (results, s2) \<Rightarrow> s2\<lparr>uploadResults := results, files := [], uploading := False\<rparr>)"

declare upload_loop.simps [simp del]

section \<open>RecipeUpload: rendering of the upload results\<close>

text \<open>
  \<open>uploadFile\<close> reports success for every response that resolves and keeps its body,
  \<open>response.data\<close>, whatever it is. A body is a parsed JSON value; \<open>undefined\<close> is what
  reading a property that is not there gives. A number is kept as the text that it
  prints as, and an object as the list of its properties with their values.
\<close>

datatype json =
  JUndefined
  | JNull
  | JBool bool
  | JNum string
  | JStr string
  | JArr "json list"
  | JObj "(string \<times> json) list"

text \<open>The two ways in which rendering a result can throw.\<close>

datatype render_error = TypeError | InvalidChild

text \<open>
  Reading a property, \<open>x.k\<close>: a \<open>TypeError\<close> on \<open>undefined\<close> and \<open>null\<close>, the value of
  the property on an object that has it, and \<open>undefined\<close> otherwise (none of the four
  names the component reads is a property of a string, number, boolean or array).
\<close>

fun get_prop :: "json \<Rightarrow> string \<Rightarrow> render_error + json" where
  "get_prop JUndefined k = Inl TypeError"
| "get_prop JNull k = Inl TypeError"
| "get_prop (JObj kvs) k = Inr (case map_of kvs k of Some v \<Rightarrow> v | None \<Rightarrow> JUndefined)"
| "get_prop (JBool b) k = Inr JUndefined"
| "get_prop (JNum n) k = Inr JUndefined"
| "get_prop (JStr t) k = Inr JUndefined"
| "get_prop (JArr js) k = Inr JUndefined"

definition and_then :: "'e + 'a \<Rightarrow> ('a \<Rightarrow> 'e + 'b) \<Rightarrow> 'e + 'b" where
  "and_then r f = (case r of Inl e \<Rightarrow> Inl e | Inr x \<Rightarrow> f x)"

text \<open>
  The three values the component reads from a body: \<open>data.extracted_data.title\<close>,
  \<open>.ingredients\<close> and \<open>.instructions\<close>, in this order and without any guard.
\<close>

definition extracted_fields :: "json \<Rightarrow> render_error + (json \<times> json \<times> json)" where
  "extracted_fields d =
     and_then (get_prop d ''extracted_data'') (\<lambda>ed.
     and_then (get_prop ed ''title'') (\<lambda>t.
     and_then (get_prop ed ''ingredients'') (\<lambda>i.
     and_then (get_prop ed ''instructions'') (\<lambda>s. Inr (t, i, s)))))"

text \<open>
  The rendered tree: a text node, or an element with its tag, its attributes
  (\<open>className\<close>, \<open>id\<close>, and \<open>style.display\<close> for the inline style) and its children.
  Event handlers are not attributes here; the one handler of this part of the
  component is \<open>toggle_details\<close> below.
\<close>

datatype view = Text string | Element string "(string \<times> string) list" "view list"

text \<open>\<open>`details-${index}`\<close> prints the index in decimal.\<close>

function string_of_nat :: "nat \<Rightarrow> string" where
  "string_of_nat n =
     (if n < 10 then [char_of (48 + n)]
      else string_of_nat (n div 10) @ [char_of (48 + n mod 10)])"
  by pat_completeness auto
termination
  by (relation "measure id") auto

declare string_of_nat.simps [simp del]

definition details_id :: "nat \<Rightarrow> string" where
  "details_id index = ''details-'' @ string_of_nat index"

text \<open>
  A value in braces as a child of an element: a string or a number is a text node,
  \<open>undefined\<close>, \<open>null\<close> and booleans render nothing, an array renders its elements in
  order, and an object is refused ("Objects are not valid as a React child").
\<close>

fun render_child :: "json \<Rightarrow> render_error + view list"
  and render_children :: "json list \<Rightarrow> render_error + view list" where
  "render_child JUndefined = Inr []"
| "render_child JNull = Inr []"
| "render_child (JBool b) = Inr []"
| "render_child (JNum n) = Inr [Text n]"
| "render_child (JStr t) = Inr [Text t]"
| "render_child (JArr js) = render_children js"
| "render_child (JObj kvs) = Inl InvalidChild"
| "render_children [] = Inr []"
| "render_children (j # js) =
     (case render_child j of
        Inl e \<Rightarrow> Inl e
      | Inr vs \<Rightarrow> (case render_children js of Inl e \<Rightarrow> Inl e | Inr ws \<Rightarrow> Inr (vs @ ws)))"

text \<open>
  One \<open><li>\<close> of the result list (the callback of \<open>uploadResults.map\<close>). The callback
  throws when it reads the three values; the children are refused later, when the
  tree is built.
\<close>

fun render_result :: "nat \<Rightarrow> json upload_result \<Rightarrow> render_error + view" where
  "render_result index (UploadOk name d) =
     and_then (extracted_fields d) (\<lambda>(t, i, s).
     and_then (render_child t) (\<lambda>title.
     and_then (render_child i) (\<lambda>ingredients.
     and_then (render_child s) (\<lambda>instructions.
       Inr (Element ''li'' [(''className'', ''result-item success'')]
         [Element ''div'' [(''className'', ''result-header'')]
            [Element ''span'' [(''className'', ''result-filename'')] [Text name],
             Element ''span'' [(''className'', ''result-status'')] [Text ''Erfolgreich'']],
          Element ''div'' [(''className'', ''result-data'')]
            [Element ''p'' []
               ([Element ''strong'' [] [Text ''Titel:''], Text '' ''] @ title),
             Element ''button'' [(''className'', ''toggle-details-button'')]
               [Text ''Details anzeigen/ausblenden''],
             Element ''div''
               [(''id'', details_id index), (''className'', ''details''),
                (''style.display'', ''none'')]
               [Element ''div'' [(''className'', ''extracted-section'')]
                  [Element ''h5'' [] [Text ''Zutaten:''],
                   Element ''pre'' [] ingredients],
                Element ''div'' [(''className'', ''extracted-section'')]
                  [Element ''h5'' [] [Text ''Zubereitung:''],
                   Element ''pre'' [] instructions]]]])))))"
| "render_result index (UploadErr name msg) =
     Inr (Element ''li'' [(''className'', ''result-item error'')]
       [Element ''div'' [(''className'', ''result-header'')]
          [Element ''span'' [(''className'', ''result-filename'')] [Text name],
           Element ''span'' [(''className'', ''result-status'')] [Text ''Fehler'']],
        Element ''div'' [(''className'', ''result-error'')]
          [Element ''p'' [] [Text msg]]])"







section \<open>The extraction pipeline: Section Segmenter\<close>

text \<open>
  The extraction pipeline is backend code and no file of it is under \<open>src/\<close>; only its
  caller, the upload component above, is. The definitions of this section are therefore
  written from the specification, and each says so.
\<close>

text \<open>
  Modelled from the spec: the LogicalLine of \<section>3 (the backend type is missing), a
  normalized line of text with its source page index and a font-size hint, which may
  be absent.
\<close>

record LogicalLine =
  line_text :: string
  page_index :: nat
  font_size_hint :: "nat option"

text \<open>Modelled from the spec: the six section tags of \<section>3 (the backend type is missing).\<close>

datatype tag = TITLE | INGREDIENTS | INSTRUCTIONS | NOTES | NUTRITION | UNKNOWN

text \<open>
  Modelled from the spec: the Section of \<section>3 (the backend type is missing), a tag with the
  contiguous ordered sequence of lines assigned to it.
\<close>

record section_rec =
  sec_tag :: tag
  sec_lines :: "LogicalLine list"

text \<open>
  Modelled from the spec: the configuration of \<section>6 (the backend tables are missing), a
  locale-specific lexicon given as data: section-header keywords and unit vocabulary as
  tables from surface forms to canonical tokens, the connector words, and the length
  threshold of the structural heuristic of \<section>4.3.
\<close>

record lexicon =
  section_headers :: "(string \<times> tag) list"
  unit_vocabulary :: "(string \<times> string) list"
  connector_words :: "string list"
  short_line_threshold :: nat

text \<open>Modelled from the spec: a blank line (the backend helper is missing) has only white space.\<close>

definition blank :: "string \<Rightarrow> bool" where
  "blank s = list_all (\<lambda>c. c = CHR '' '' \<or> c = CHR 0x09) s"

text \<open>
  Modelled from the spec: "the first line with the largest font-size hint" of \<section>4.3,
  step 1 (the backend helper is missing), over pairs of a position and a hint: a later
  candidate replaces the best one only when its hint is strictly larger.
\<close>

fun largest_first :: "nat \<times> nat \<Rightarrow> (nat \<times> nat) list \<Rightarrow> nat \<times> nat" where
  "largest_first best [] = best"
| "largest_first (bi, bh) ((i, h) # rest) =
     largest_first (if h > bh then (i, h) else (bi, bh)) rest"

text \<open>
  Modelled from the spec: step 1 of \<section>4.3 (the backend function is missing). The title
  candidate is the first non-blank line with the largest font-size hint in the first
  page (the page of the first line); when no such line has a hint, the first non-blank
  line of the document; when there is none either, no line is the title.
\<close>

definition title_position :: "LogicalLine list \<Rightarrow> nat option" where
  "title_position ls =
     (case ls of
        [] \<Rightarrow> None
      | l0 # _ \<Rightarrow>
          (case List.map_filter
                  (\<lambda>(i, l). case font_size_hint l of
                               None \<Rightarrow> None
                             | Some h \<Rightarrow>
                                 if page_index l = page_index l0 \<and> \<not> blank (line_text l)
                                 then Some (i, h) else None)
                  (enumerate 0 ls) of
             c # cs \<Rightarrow> Some (fst (largest_first c cs))
           | [] \<Rightarrow>
               (case filter (\<lambda>(i, l). \<not> blank (line_text l)) (enumerate 0 ls) of
                  [] \<Rightarrow> None
                | (i, _) # _ \<Rightarrow> Some i)))"

text \<open>
  Modelled from the spec: step 2 of \<section>4.3 (the backend function is missing). A line
  found in the header lexicon starts a new labelled section, and the label persists
  until the next anchor or the end of the document. Each line gets the label in force
  and a flag saying whether it is itself an anchor.
\<close>

fun anchor_labels :: "lexicon \<Rightarrow> tag option \<Rightarrow> LogicalLine list \<Rightarrow> (tag option \<times> bool) list" where
  "anchor_labels cfg cur [] = []"
| "anchor_labels cfg cur (l # ls) =
     (case map_of (section_headers cfg) (line_text l) of
        Some t \<Rightarrow> (Some t, True) # anchor_labels cfg (Some t) ls
      | None \<Rightarrow> (cur, False) # anchor_labels cfg cur ls)"

text \<open>
  Modelled from the spec: the line shape of \<section>4.3, step 3 (the backend helper is
  missing): a short line, below the length threshold, that starts with a numeral or
  with a unit token of the vocabulary.
\<close>

definition ingredient_shaped :: "lexicon \<Rightarrow> LogicalLine \<Rightarrow> bool" where
  "ingredient_shaped cfg l =
     (length (line_text l) < short_line_threshold cfg \<and>
      (case line_text l of
         [] \<Rightarrow> False
       | c # _ \<Rightarrow>
           c \<in> set ''0123456789'' \<or>
           takeWhile (\<lambda>c. c \<noteq> CHR '' '') (line_text l) \<in> set (map fst (unit_vocabulary cfg))))"

text \<open>
  Modelled from the spec: a line of long prose (\<section>4.3, step 3; the backend helper is
  missing) is one that is not below the length threshold.
\<close>

definition long_prose :: "lexicon \<Rightarrow> LogicalLine \<Rightarrow> bool" where
  "long_prose cfg l = (length (line_text l) \<ge> short_line_threshold cfg)"

text \<open>
  Modelled from the spec: where the scan of \<section>4.3, step 3 stands (the backend code is
  missing): before the run of ingredient lines, in it, between it and the prose run, in
  the prose run, or past it.
\<close>

datatype phase = BeforeRun | InIngredients | AfterIngredients | InProse | Finished

text \<open>
  Modelled from the spec: step 3 of \<section>4.3 (the backend function is missing). The first
  contiguous run of ingredient-shaped lines is INGREDIENTS and the first run of long
  prose after it is INSTRUCTIONS; the heuristic labels no other line.
\<close>

fun structural_labels :: "lexicon \<Rightarrow> phase \<Rightarrow> LogicalLine list \<Rightarrow> tag option list" where
  "structural_labels cfg ph [] = []"
| "structural_labels cfg BeforeRun (l # ls) =
     (if ingredient_shaped cfg l then Some INGREDIENTS # structural_labels cfg InIngredients ls
      else None # structural_labels cfg BeforeRun ls)"
| "structural_labels cfg InIngredients (l # ls) =
     (if ingredient_shaped cfg l then Some INGREDIENTS # structural_labels cfg InIngredients ls
      else if long_prose cfg l then Some INSTRUCTIONS # structural_labels cfg InProse ls
      else None # structural_labels cfg AfterIngredients ls)"
| "structural_labels cfg AfterIngredients (l # ls) =
     (if long_prose cfg l then Some INSTRUCTIONS # structural_labels cfg InProse ls
      else None # structural_labels cfg AfterIngredients ls)"
| "structural_labels cfg InProse (l # ls) =
     (if long_prose cfg l then Some INSTRUCTIONS # structural_labels cfg InProse ls
      else None # structural_labels cfg Finished ls)"
| "structural_labels cfg Finished (l # ls) = None # structural_labels cfg Finished ls"

text \<open>
  Modelled from the spec: the rule order of \<section>4.3 (the backend function is missing).
  The title line is TITLE; otherwise a keyword label wins; the structural heuristic
  applies only when no ingredients or instructions anchor exists at all; a line matched
  by no rule is UNKNOWN. A line starts a new section when it is the title or an anchor.
\<close>

definition label_lines :: "lexicon \<Rightarrow> LogicalLine list \<Rightarrow> (tag \<times> bool) list" where
  "label_lines cfg ls =
     (let anchors = anchor_labels cfg None ls;
          anchored = list_ex (\<lambda>(t, is_anchor). is_anchor \<and>
                                (t = Some INGREDIENTS \<or> t = Some INSTRUCTIONS)) anchors;
          structural = (if anchored then map (\<lambda>_. None) ls
                        else structural_labels cfg BeforeRun ls);
          title_at = title_position ls
      in map (\<lambda>(i, (a, is_anchor), st).
                if title_at = Some i then (TITLE, True)
                else case a of
                       Some t \<Rightarrow> (t, is_anchor)
                     | None \<Rightarrow> (case st of Some t \<Rightarrow> (t, False) | None \<Rightarrow> (UNKNOWN, False)))
           (zip [0..<length ls] (zip anchors structural)))"

text \<open>
  Modelled from the spec: the sections of \<section>3 and \<section>4.3 (the backend function is
  missing) are the runs of the labelled lines, in document order: a line continues the
  section of the line before it when both have the same tag and it does not start a new
  section.
\<close>

fun group_sections :: "((tag \<times> bool) \<times> LogicalLine) list \<Rightarrow> section_rec list" where
  "group_sections [] = []"
| "group_sections [((t, new), l)] = [\<lparr>sec_tag = t, sec_lines = [l]\<rparr>]"
| "group_sections (((t, new), l) # ((t', new'), l') # rest) =
     (case group_sections (((t', new'), l') # rest) of
        [] \<Rightarrow> [\<lparr>sec_tag = t, sec_lines = [l]\<rparr>]
      | s # ss \<Rightarrow>
          if t = t' \<and> \<not> new' then s\<lparr>sec_lines := l # sec_lines s\<rparr> # ss
          else \<lparr>sec_tag = t, sec_lines = [l]\<rparr> # s # ss)"

text \<open>
  Modelled from the spec: the Section Segmenter of \<section>4.3 (the backend function is
  missing): label the lines, then cut them into sections.
\<close>

definition segment :: "lexicon \<Rightarrow> LogicalLine list \<Rightarrow> section_rec list" where
  "segment cfg ls = group_sections (zip (label_lines cfg ls) ls)"

text \<open>
  Modelled from the spec: the line-range of each section (\<section>8, partition invariant):
  the half-open range of positions it covers when the sections are laid end to end.
\<close>

fun ranges_from :: "nat \<Rightarrow> 'a list list \<Rightarrow> (nat \<times> nat) list" where
  "ranges_from start [] = []"
| "ranges_from start (xs # xss) =
     (start, start + length xs) # ranges_from (start + length xs) xss"

text \<open>
  Modelled from the spec: the line-ranges of the sections of a segmentation (\<section>8; the
  backend has no such function), counted from position 0 of the input.
\<close>

definition section_ranges :: "section_rec list \<Rightarrow> (nat \<times> nat) list" where
  "section_ranges secs = ranges_from 0 (map sec_lines secs)"

section \<open>Properties of the registration form\<close>

text \<open>
  C10. In the Register component, when \<open>password\<close> and \<open>confirmPassword\<close> differ,
  \<open>handleSubmit\<close> issues no network request (neither /register nor /login), sets the
  error message and leaves the form data unchanged; whenever any request is issued, the
  two passwords are equal.
\<close>

theorem handleSubmit_password_mismatch:
  "(password (reg_formData s) \<noteq> confirmPassword (reg_formData s) \<longrightarrow>
      requests (handleSubmit net s) = [] \<and>
      new_state (handleSubmit net s) = s\<lparr>reg_error := password_mismatch_msg\<rparr> \<and>
      reg_formData (new_state (handleSubmit net s)) = reg_formData s \<and>
      user_set (handleSubmit net s) = None \<and>
      navigated (handleSubmit net s) = None) \<and>
   (requests (handleSubmit net s) \<noteq> [] \<longrightarrow>
      password (reg_formData s) = confirmPassword (reg_formData s))"
  by (simp add: handleSubmit_def Let_def split: sum.splits)

theorem handleSubmit_password_mismatch_witness:
  "(let s = \<lparr>reg_formData = \<lparr>username = ''anna'', email = ''a@b.de'',
                               password = ''geheim'', confirmPassword = ''geheim2''\<rparr>,
             reg_error = []\<rparr>;
        net = (\<lambda>r. Inr (1::nat))
    in password (reg_formData s) \<noteq> confirmPassword (reg_formData s) \<and>
       requests (handleSubmit net s) = [] \<and>
       reg_error (new_state (handleSubmit net s)) = password_mismatch_msg \<and>
       reg_formData (new_state (handleSubmit net s)) = reg_formData s) \<and>
   (let s = \<lparr>reg_formData = \<lparr>username = ''anna'', email = ''a@b.de'',
                               password = ''geheim'', confirmPassword = ''geheim''\<rparr>,
             reg_error = []\<rparr>;
        net = (\<lambda>r. Inr (1::nat))
    in requests (handleSubmit net s) =
         [PostRegister ''anna'' ''a@b.de'' ''geheim'', PostLogin ''anna'' ''geheim''] \<and>
       password (reg_formData s) = confirmPassword (reg_formData s))"
  using handleSubmit_password_mismatch
    [of "\<lparr>reg_formData = \<lparr>username = ''anna'', email = ''a@b.de'',
                             password = ''geheim'', confirmPassword = ''geheim2''\<rparr>,
           reg_error = []\<rparr>" "\<lambda>r. Inr (1::nat)"]
  by (simp add: handleSubmit_def Let_def)

section \<open>Properties of the upload component\<close>

subsection \<open>Selecting files\<close>

lemma handleFileChange_files:
  "files (handleFileChange target_files s) =
     files s @ filter (\<lambda>f. file_type f = ''application/pdf'') target_files"
  by (simp add: handleFileChange_def Let_def)

lemma handleFileChange_others:
  "uploading (handleFileChange tf s) = uploading s \<and>
   uploadResults (handleFileChange tf s) = uploadResults s \<and>
   uploadProgress (handleFileChange tf s) = uploadProgress s"
  by (simp add: handleFileChange_def Let_def)

lemma handleFileChange_error:
  "error (handleFileChange target_files s) =
     (if filter (\<lambda>f. file_type f = ''application/pdf'') target_files \<noteq> [] then None
      else if target_files \<noteq> [] then Some only_pdf_msg
      else error s)"
  by (auto simp add: handleFileChange_def Let_def)

text \<open>
  C7. For every file selection, exactly the files of type \<open>application/pdf\<close> are appended
  to the upload list and the others are ignored (\<open>handleFileChange_files\<close>); and an error
  notice is to be shown whenever a file was ignored. The component does not do the last
  part: for a selection of one PDF and one text file, the PDF is added, the text file is
  ignored, and the message set by the first \<open>setError\<close> is cleared again by the
  \<open>setError(null)\<close> that follows the \<open>setFiles\<close>, so that no notice is shown.
\<close>

theorem handleFileChange_mixed_selection_clears_error:
  "files (handleFileChange
      [\<lparr>file_name = ''kuchen.pdf'', file_type = ''application/pdf'', file_size = 2048\<rparr>,
       \<lparr>file_name = ''notiz.txt'', file_type = ''text/plain'', file_size = 12\<rparr>]
      (\<lparr>files = [], uploading = False, uploadProgress = Map.empty,
        uploadResults = [], error = None\<rparr> :: unit upload_state))
     = [\<lparr>file_name = ''kuchen.pdf'', file_type = ''application/pdf'', file_size = 2048\<rparr>] \<and>
   error (handleFileChange
      [\<lparr>file_name = ''kuchen.pdf'', file_type = ''application/pdf'', file_size = 2048\<rparr>,
       \<lparr>file_name = ''notiz.txt'', file_type = ''text/plain'', file_size = 12\<rparr>]
      (\<lparr>files = [], uploading = False, uploadProgress = Map.empty,
        uploadResults = [], error = None\<rparr> :: unit upload_state)) = None \<and>
   \<not> error_notice_shown (handleFileChange
      [\<lparr>file_name = ''kuchen.pdf'', file_type = ''application/pdf'', file_size = 2048\<rparr>,
       \<lparr>file_name = ''notiz.txt'', file_type = ''text/plain'', file_size = 12\<rparr>]
      (\<lparr>files = [], uploading = False, uploadProgress = Map.empty,
        uploadResults = [], error = None\<rparr> :: unit upload_state))"
  by (simp add: handleFileChange_def error_notice_shown_def Let_def)

subsection \<open>Uploading the batch\<close>

lemma fst_uploadFile:
  "fst (uploadFile post f i s) =
     (case reply (post i f) of
        Inr d \<Rightarrow> UploadOk (file_name f) d
      | Inl e \<Rightarrow> UploadErr (file_name f) (upload_error_text e))"
  by (simp add: uploadFile_def Let_def split: sum.splits)

lemma upload_loop_results:
  "fst (upload_loop post fs i results s) =
     results @ map (\<lambda>j. fst (uploadFile post (fs ! j) j s0)) [i..<length fs]"
proof (induction post fs i results s rule: upload_loop.induct)
  case (1 post fs i results s)
  show ?case
  proof (cases "i < length fs")
    case True
    obtain r s' where u: "uploadFile post (fs ! i) i s = (r, s')"
      by (cases "uploadFile post (fs ! i) i s")
    have r: "r = fst (uploadFile post (fs ! i) i s0)"
      using u fst_uploadFile [of post "fs ! i" i s] fst_uploadFile [of post "fs ! i" i s0]
      by simp
    have "fst (upload_loop post fs i results s) = fst (upload_loop post fs (Suc i) (results @ [r]) s')"
      using True u by (subst upload_loop.simps) simp
    also have "\<dots> = (results @ [r]) @ map (\<lambda>j. fst (uploadFile post (fs ! j) j s0)) [Suc i..<length fs]"
      using "1.IH" [OF True u [symmetric]] by simp
    also have "\<dots> = results @ map (\<lambda>j. fst (uploadFile post (fs ! j) j s0)) [i..<length fs]"
      using True r by (simp add: upt_conv_Cons)
    finally show ?thesis .
  next
    case False
    then show ?thesis by (subst upload_loop.simps) simp
  qed
qed

lemma handleUploadAll_uploadResults:
  "files s \<noteq> [] \<Longrightarrow>
   uploadResults (handleUploadAll post s) =
     map (\<lambda>j. fst (uploadFile post (files s ! j) j s0)) [0..<length (files s)]"
proof -
  assume ne: "files s \<noteq> []"
  let ?s1 = "s\<lparr>uploading := True, error := None, uploadResults := [],
               uploadProgress := Map.empty\<rparr>"
  obtain results s2 where l: "upload_loop post (files s) 0 [] ?s1 = (results, s2)"
    by (cases "upload_loop post (files s) 0 [] ?s1")
  have "results = fst (upload_loop post (files s) 0 [] ?s1)"
    using l by simp
  also have "\<dots> = map (\<lambda>j. fst (uploadFile post (files s ! j) j s0)) [0..<length (files s)]"
    by (simp only: upload_loop_results [of post "files s" 0 "[]" ?s1 s0] append_Nil)
  finally have r: "results = map (\<lambda>j. fst (uploadFile post (files s ! j) j s0)) [0..<length (files s)]"
    .
  have "handleUploadAll post s = s2\<lparr>uploadResults := results, files := [], uploading := False\<rparr>"
    using ne l by (simp add: handleUploadAll_def)
  then show ?thesis using r by simp
qed

text \<open>
  C8. Batch upload handles the selected files one after the other and reports each file
  on its own: after \<open>handleUploadAll\<close> on a non-empty selection, \<open>uploadResults\<close> has
  exactly one entry per selected file, in selection order and under the file's name; the
  entry at position \<open>i\<close> is what \<open>uploadFile\<close> returns for file \<open>i\<close>, it reports success
  exactly when the request for that file was answered, and it is the same under every
  other behaviour of the network that agrees on that one request, so a failed upload
  neither ends the loop nor changes another file's entry.
\<close>

theorem handleUploadAll_one_result_per_file:
  assumes "files s \<noteq> []"
  shows "length (uploadResults (handleUploadAll post s)) = length (files s) \<and>
         map filename (uploadResults (handleUploadAll post s)) = map file_name (files s) \<and>
         (\<forall>i<length (files s).
            uploadResults (handleUploadAll post s) ! i = fst (uploadFile post (files s ! i) i s) \<and>
            (success (uploadResults (handleUploadAll post s) ! i)
               \<longleftrightarrow> \<not> isl (reply (post i (files s ! i)))) \<and>
            (\<forall>post'. post' i (files s ! i) = post i (files s ! i) \<longrightarrow>
               uploadResults (handleUploadAll post' s) ! i
                 = uploadResults (handleUploadAll post s) ! i))"
proof -
  have res: "uploadResults (handleUploadAll p s) =
               map (\<lambda>j. fst (uploadFile p (files s ! j) j s)) [0..<length (files s)]" for p
    using assms by (rule handleUploadAll_uploadResults)
  have len: "length (uploadResults (handleUploadAll post s)) = length (files s)"
    by (simp add: res)
  have names: "map filename (uploadResults (handleUploadAll post s)) = map file_name (files s)"
  proof (rule nth_equalityI)
    show "length (map filename (uploadResults (handleUploadAll post s))) = length (map file_name (files s))"
      by (simp add: len)
  next
    fix i assume "i < length (map filename (uploadResults (handleUploadAll post s)))"
    then have i: "i < length (files s)" by (simp add: len)
    then show "map filename (uploadResults (handleUploadAll post s)) ! i = map file_name (files s) ! i"
      by (simp add: res fst_uploadFile split: sum.splits)
  qed
  have each: "uploadResults (handleUploadAll post s) ! i = fst (uploadFile post (files s ! i) i s) \<and>
            (success (uploadResults (handleUploadAll post s) ! i)
               \<longleftrightarrow> \<not> isl (reply (post i (files s ! i)))) \<and>
            (\<forall>post'. post' i (files s ! i) = post i (files s ! i) \<longrightarrow>
               uploadResults (handleUploadAll post' s) ! i
                 = uploadResults (handleUploadAll post s) ! i)"
    if i: "i < length (files s)" for i
    using i by (simp add: res fst_uploadFile split: sum.splits)
  show ?thesis using len names each by blast
qed


theorem handleUploadAll_one_result_per_file_witness:
  "(let a = \<lparr>file_name = ''a.pdf'', file_type = ''application/pdf'', file_size = 100\<rparr>;
        b = \<lparr>file_name = ''b.pdf'', file_type = ''application/pdf'', file_size = 200\<rparr>;
        s = \<lparr>files = [a, b], uploading = False, uploadProgress = Map.empty,
             uploadResults = [], error = None\<rparr>;
        post = (\<lambda>i f. if i = 0 then \<lparr>progress_events = [], reply = Inl None\<rparr>
                       else \<lparr>progress_events = [50, 100], reply = Inr ''Kuchen''\<rparr>)
    in files s \<noteq> [] \<and>
       uploadResults (handleUploadAll post s)
         = [UploadErr ''a.pdf'' upload_failed_msg, UploadOk ''b.pdf'' ''Kuchen''] \<and>
       length (uploadResults (handleUploadAll post s)) = length (files s) \<and>
       map filename (uploadResults (handleUploadAll post s)) = map file_name (files s))"
  using handleUploadAll_one_result_per_file
    [of "\<lparr>files = [\<lparr>file_name = ''a.pdf'', file_type = ''application/pdf'', file_size = 100\<rparr>,
                    \<lparr>file_name = ''b.pdf'', file_type = ''application/pdf'', file_size = 200\<rparr>],
           uploading = False, uploadProgress = Map.empty,
           uploadResults = [], error = None\<rparr>"
        "\<lambda>i f. if i = 0 then \<lparr>progress_events = [], reply = Inl None\<rparr>
                       else \<lparr>progress_events = [50, 100], reply = Inr ''Kuchen''\<rparr>"]
  by (simp add: Let_def handleUploadAll_def upload_loop.simps uploadFile_def
        upload_error_text_def)

subsection \<open>Showing the results\<close>









lemma render_child_not_TypeError:
  "render_child j \<noteq> Inl TypeError"
  and render_children_not_TypeError:
  "render_children js \<noteq> Inl TypeError"
  by (induction j and js rule: render_child_render_children.induct)
     (auto split: sum.splits)

lemma render_result_TypeError_iff:
  "render_result index (UploadOk name d) = Inl TypeError \<longleftrightarrow> extracted_fields d = Inl TypeError"
  using render_child_not_TypeError
  by (auto simp add: and_then_def split: sum.splits prod.splits)

lemma render_result_err_ok [simp]: "\<not> isl (render_result j (UploadErr name msg))"
  by simp

lemma render_result_ok_iff:
  "\<not> isl (render_result j (UploadOk name d)) \<longleftrightarrow>
     (\<exists>t i s. extracted_fields d = Inr (t, i, s) \<and> \<not> isl (render_child t) \<and>
        \<not> isl (render_child i) \<and> \<not> isl (render_child s))"
  by (auto simp add: and_then_def split: sum.splits prod.splits)

lemma extracted_fields_TypeError_iff:
  "extracted_fields d = Inl TypeError \<longleftrightarrow>
     d = JUndefined \<or> d = JNull \<or>
     get_prop d ''extracted_data'' = Inr JUndefined \<or> get_prop d ''extracted_data'' = Inr JNull"
proof (cases d)
  case (JObj kvs)
  then show ?thesis
    by (cases "case map_of kvs ''extracted_data'' of Some v \<Rightarrow> v | None \<Rightarrow> JUndefined")
       (simp_all add: extracted_fields_def and_then_def)
qed (simp_all add: extracted_fields_def and_then_def)

lemma extracted_fields_error: "extracted_fields d = Inl e \<Longrightarrow> e = TypeError"
proof (cases d)
  case (JObj kvs)
  assume "extracted_fields d = Inl e"
  with JObj show ?thesis
    by (cases "case map_of kvs ''extracted_data'' of Some v \<Rightarrow> v | None \<Rightarrow> JUndefined")
       (simp_all add: extracted_fields_def and_then_def)
qed (simp_all add: extracted_fields_def and_then_def)








section \<open>Properties of the extraction pipeline\<close>

subsection \<open>Sections partition the lines\<close>

lemma length_anchor_labels: "length (anchor_labels cfg cur ls) = length ls"
  by (induction ls arbitrary: cur) (auto split: option.splits)

lemma length_structural_labels: "length (structural_labels cfg ph ls) = length ls"
  by (induction cfg ph ls rule: structural_labels.induct) auto

lemma length_label_lines: "length (label_lines cfg ls) = length ls"
  by (simp add: label_lines_def Let_def length_anchor_labels length_structural_labels)

lemma concat_group_sections: "concat (map sec_lines (group_sections xs)) = map snd xs"
  by (induction xs rule: group_sections.induct) (auto split: list.splits)

lemma group_sections_nonempty: "s \<in> set (group_sections xs) \<Longrightarrow> sec_lines s \<noteq> []"
  by (induction xs arbitrary: s rule: group_sections.induct) (auto split: list.splits if_splits)

lemma length_ranges_from: "length (ranges_from n xss) = length xss"
  by (induction xss arbitrary: n) auto

lemma ranges_from_nth:
  "k < length xss \<Longrightarrow>
   ranges_from n xss ! k =
     (n + length (concat (take k xss)), n + length (concat (take (Suc k) xss)))"
proof (induction xss arbitrary: n k)
  case Nil
  then show ?case by simp
next
  case (Cons xs xss)
  show ?case
  proof (cases k)
    case 0
    then show ?thesis by simp
  next
    case (Suc j)
    with Cons.prems have "j < length xss" by simp
    from Cons.IH [OF this, of "n + length xs"] Suc show ?thesis by simp
  qed
qed

lemma offset_mono:
  "j \<le> k \<Longrightarrow> length (concat (take j xss)) \<le> length (concat (take k xss))"
proof -
  assume "j \<le> k"
  then have "take k xss = take j xss @ take (k - j) (drop j xss)"
    by (metis le_add_diff_inverse take_add)
  then show ?thesis by simp
qed

lemma nth_as_range:
  "k < length xss \<Longrightarrow>
   xss ! k = take (length (concat (take (Suc k) xss)) - length (concat (take k xss)))
               (drop (length (concat (take k xss))) (concat xss))"
proof -
  assume k: "k < length xss"
  have split: "xss = take k xss @ (xss ! k) # drop (Suc k) xss"
    using k by (simp add: id_take_nth_drop)
  have "concat xss = concat (take k xss) @ xss ! k @ concat (drop (Suc k) xss)"
    by (subst split) simp
  moreover have "length (concat (take (Suc k) xss)) - length (concat (take k xss)) = length (xss ! k)"
    using k by (simp add: take_Suc_conv_app_nth)
  ultimately show ?thesis by simp
qed

lemma position_in_some_range:
  "i < length (concat xss) \<Longrightarrow>
   \<exists>k<length xss. length (concat (take k xss)) \<le> i \<and> i < length (concat (take (Suc k) xss))"
proof (induction xss arbitrary: i)
  case Nil
  then show ?case by simp
next
  case (Cons xs xss)
  show ?case
  proof (cases "i < length xs")
    case True
    then show ?thesis by (intro exI [of _ 0]) simp
  next
    case False
    with Cons.prems have "i - length xs < length (concat xss)" by simp
    from Cons.IH [OF this] obtain k where k: "k < length xss"
      "length (concat (take k xss)) \<le> i - length xs"
      "i - length xs < length (concat (take (Suc k) xss))" by blast
    have "Suc k < length (xs # xss)" using k(1) by simp
    moreover have "length (concat (take (Suc k) (xs # xss))) \<le> i"
      using k(2) False by simp
    moreover have "i < length (concat (take (Suc (Suc k)) (xs # xss)))"
      using k(3) False by simp
    ultimately show ?thesis by blast
  qed
qed

lemma position_in_one_range:
  assumes "i < length (concat xss)"
  shows "\<exists>!k. k < length xss \<and> length (concat (take k xss)) \<le> i \<and>
               i < length (concat (take (Suc k) xss))"
proof -
  from position_in_some_range [OF assms] obtain k where k: "k < length xss"
    "length (concat (take k xss)) \<le> i" "i < length (concat (take (Suc k) xss))" by blast
  have "j = k" if j: "j < length xss" "length (concat (take j xss)) \<le> i"
    "i < length (concat (take (Suc j) xss))" for j
  proof (rule ccontr)
    assume "j \<noteq> k"
    then consider "Suc j \<le> k" | "Suc k \<le> j" by linarith
    then show False
    proof cases
      case 1
      from offset_mono [OF this, of xss] j k show False by simp
    next
      case 2
      from offset_mono [OF this, of xss] j k show False by simp
    qed
  qed
  with k show ?thesis by blast
qed

text \<open>
  C1. For every input line sequence the sections that the Section Segmenter returns
  partition it: laid end to end in order they are the input again; every position of
  the input lies in the line-range of exactly one section; and each section is the
  non-empty contiguous range of the input that its line-range names, where the first
  range starts at 0, each range starts where the one before it ends, and the last
  range ends at the length of the input, so that there is no overlap and no gap.
\<close>

theorem segment_partition:
  "concat (map sec_lines (segment cfg ls)) = ls \<and>
   (\<forall>i<length ls. \<exists>!k. k < length (segment cfg ls) \<and>
        fst (section_ranges (segment cfg ls) ! k) \<le> i \<and>
        i < snd (section_ranges (segment cfg ls) ! k)) \<and>
   (\<forall>k<length (segment cfg ls).
        fst (section_ranges (segment cfg ls) ! k) < snd (section_ranges (segment cfg ls) ! k) \<and>
        sec_lines (segment cfg ls ! k) =
          take (snd (section_ranges (segment cfg ls) ! k) - fst (section_ranges (segment cfg ls) ! k))
            (drop (fst (section_ranges (segment cfg ls) ! k)) ls) \<and>
        (if k = 0 then fst (section_ranges (segment cfg ls) ! k) = 0
         else fst (section_ranges (segment cfg ls) ! k) = snd (section_ranges (segment cfg ls) ! (k - 1))) \<and>
        (if Suc k = length (segment cfg ls) then snd (section_ranges (segment cfg ls) ! k) = length ls
         else snd (section_ranges (segment cfg ls) ! k) = fst (section_ranges (segment cfg ls) ! Suc k)))"
proof -
  let ?secs = "segment cfg ls"
  let ?xss = "map sec_lines ?secs"
  have cat: "concat ?xss = ls"
    by (simp add: segment_def concat_group_sections length_label_lines)
  have rng: "section_ranges ?secs ! k =
               (length (concat (take k ?xss)), length (concat (take (Suc k) ?xss)))"
    if "k < length ?secs" for k
    using that ranges_from_nth [of k ?xss 0] by (simp add: section_ranges_def)
  have one: "\<exists>!k. k < length ?secs \<and> fst (section_ranges ?secs ! k) \<le> i \<and>
                  i < snd (section_ranges ?secs ! k)" if i: "i < length ls" for i
  proof -
    from i cat have "i < length (concat ?xss)" by simp
    from position_in_one_range [OF this] obtain k where
      k: "k < length ?xss" "length (concat (take k ?xss)) \<le> i"
         "i < length (concat (take (Suc k) ?xss))"
      and uniq: "\<And>j. j < length ?xss \<and> length (concat (take j ?xss)) \<le> i \<and>
                  i < length (concat (take (Suc j) ?xss)) \<Longrightarrow> j = k"
      by blast
    show ?thesis
    proof (rule ex1I [of _ k])
      show "k < length ?secs \<and> fst (section_ranges ?secs ! k) \<le> i \<and>
            i < snd (section_ranges ?secs ! k)"
        using k by (simp add: rng)
    next
      fix j assume j: "j < length ?secs \<and> fst (section_ranges ?secs ! j) \<le> i \<and>
            i < snd (section_ranges ?secs ! j)"
      then have "j < length ?secs" by simp
      with j show "j = k" by (intro uniq) (simp add: rng)
    qed
  qed
  have each: "fst (section_ranges ?secs ! k) < snd (section_ranges ?secs ! k) \<and>
        sec_lines (?secs ! k) =
          take (snd (section_ranges ?secs ! k) - fst (section_ranges ?secs ! k))
            (drop (fst (section_ranges ?secs ! k)) ls) \<and>
        (if k = 0 then fst (section_ranges ?secs ! k) = 0
         else fst (section_ranges ?secs ! k) = snd (section_ranges ?secs ! (k - 1))) \<and>
        (if Suc k = length ?secs then snd (section_ranges ?secs ! k) = length ls
         else snd (section_ranges ?secs ! k) = fst (section_ranges ?secs ! Suc k))"
    if k: "k < length ?secs" for k
  proof -
    have ne: "sec_lines (?secs ! k) \<noteq> []"
      using k group_sections_nonempty [of "?secs ! k" "zip (label_lines cfg ls) ls"]
      by (simp add: segment_def)
    have a: "fst (section_ranges ?secs ! k) < snd (section_ranges ?secs ! k)"
      using k ne by (simp add: rng take_Suc_conv_app_nth)
    have b: "sec_lines (?secs ! k) =
          take (snd (section_ranges ?secs ! k) - fst (section_ranges ?secs ! k))
            (drop (fst (section_ranges ?secs ! k)) ls)"
      using k nth_as_range [of k ?xss] cat by (simp add: rng)
    have c: "(if k = 0 then fst (section_ranges ?secs ! k) = 0
         else fst (section_ranges ?secs ! k) = snd (section_ranges ?secs ! (k - 1)))"
      using k by (cases k) (simp_all add: rng)
    have d: "(if Suc k = length ?secs then snd (section_ranges ?secs ! k) = length ls
         else snd (section_ranges ?secs ! k) = fst (section_ranges ?secs ! Suc k))"
    proof (cases "Suc k = length ?secs")
      case True
      then have "take (Suc k) ?xss = ?xss" by simp
      with True k cat show ?thesis by (simp add: rng)
    next
      case False
      with k have "Suc k < length ?secs" by simp
      with k False show ?thesis by (simp add: rng)
    qed
    from a b c d show ?thesis by blast
  qed
  from cat one each show ?thesis by blast
qed

theorem segment_partition_witness:
  "(let cfg = \<lparr>section_headers = [(''Zutaten'', INGREDIENTS), (''Zubereitung'', INSTRUCTIONS)],
               unit_vocabulary = [(''TL'', ''TL''), (''g'', ''g'')],
               connector_words = [''von''], short_line_threshold = 30\<rparr>;
        ls = [\<lparr>line_text = ''Apfelkuchen'', page_index = 0, font_size_hint = Some 18\<rparr>,
              \<lparr>line_text = ''Zutaten'', page_index = 0, font_size_hint = Some 12\<rparr>,
              \<lparr>line_text = ''200 g Mehl'', page_index = 0, font_size_hint = Some 10\<rparr>,
              \<lparr>line_text = ''Zubereitung'', page_index = 0, font_size_hint = Some 12\<rparr>,
              \<lparr>line_text = ''Alles mischen.'', page_index = 0, font_size_hint = Some 10\<rparr>]
    in map sec_tag (segment cfg ls) = [TITLE, INGREDIENTS, INSTRUCTIONS] \<and>
       section_ranges (segment cfg ls) = [(0, 1), (1, 3), (3, 5)] \<and>
       concat (map sec_lines (segment cfg ls)) = ls \<and>
       (2::nat) < length ls \<and>
       (1::nat) < length (segment cfg ls) \<and>
       fst (section_ranges (segment cfg ls) ! 1) \<le> 2 \<and>
       2 < snd (section_ranges (segment cfg ls) ! 1))"
proof -
  let ?cfg = "\<lparr>section_headers = [(''Zutaten'', INGREDIENTS), (''Zubereitung'', INSTRUCTIONS)],
               unit_vocabulary = [(''TL'', ''TL''), (''g'', ''g'')],
               connector_words = [''von''], short_line_threshold = 30\<rparr>"
  let ?ls = "[\<lparr>line_text = ''Apfelkuchen'', page_index = 0, font_size_hint = Some 18\<rparr>,
              \<lparr>line_text = ''Zutaten'', page_index = 0, font_size_hint = Some 12\<rparr>,
              \<lparr>line_text = ''200 g Mehl'', page_index = 0, font_size_hint = Some 10\<rparr>,
              \<lparr>line_text = ''Zubereitung'', page_index = 0, font_size_hint = Some 12\<rparr>,
              \<lparr>line_text = ''Alles mischen.'', page_index = 0, font_size_hint = Some 10\<rparr>]"
  have cat: "concat (map sec_lines (segment ?cfg ?ls)) = ?ls"
    using segment_partition [of ?cfg ?ls] by blast
  have secs: "segment ?cfg ?ls =
      [\<lparr>sec_tag = TITLE,
         sec_lines = [\<lparr>line_text = ''Apfelkuchen'', page_index = 0, font_size_hint = Some 18\<rparr>]\<rparr>,
       \<lparr>sec_tag = INGREDIENTS,
         sec_lines = [\<lparr>line_text = ''Zutaten'', page_index = 0, font_size_hint = Some 12\<rparr>,
                      \<lparr>line_text = ''200 g Mehl'', page_index = 0, font_size_hint = Some 10\<rparr>]\<rparr>,
       \<lparr>sec_tag = INSTRUCTIONS,
         sec_lines = [\<lparr>line_text = ''Zubereitung'', page_index = 0, font_size_hint = Some 12\<rparr>,
                      \<lparr>line_text = ''Alles mischen.'', page_index = 0, font_size_hint = Some 10\<rparr>]\<rparr>]"
    by (simp add: segment_def label_lines_def title_position_def Let_def
          List.map_filter_def blank_def enumerate_eq_zip upt_rec)
  show ?thesis
    unfolding Let_def using cat by (simp add: secs section_ranges_def)
qed

end
